theory Spec2Isabelle
  imports Complex_Main
begin

section \<open>The rendered document\<close>

text \<open>
  The visual of \<^verbatim>\<open>src/visual.ts\<close> draws one \<^verbatim>\<open>rect\<close> of class \<^verbatim>\<open>bar\<close> per category and
  keeps no state of its own about them: everything lives in the DOM. The model therefore
  carries the DOM as an explicit store. A node reference is an index into the store; a
  d3 selection is a list of node references. Nodes are never deleted from the store:
  \<^verbatim>\<open>remove()\<close> only detaches them, so a selection taken earlier still refers to them.

  The selection identifier is the host's opaque \<^verbatim>\<open>ISelectionId\<close>: a type parameter
  \<open>'id\<close>, with the host's \<^verbatim>\<open>includes\<close> method passed to the synchronizer as a parameter
  (\<^verbatim>\<open>a.includes(b)\<close> is \<open>incl a b\<close>). It is taken to return a boolean and to touch
  nothing.
\<close>

text \<open>
  \<^verbatim>\<open>interface IDatapoint { country: string; value: number; selectionId: ISelectionId }\<close>.
  The field \<^verbatim>\<open>value\<close> is \<open>value_num\<close> here; \<open>None\<close> is JavaScript's \<^verbatim>\<open>undefined\<close>, which
  \<^verbatim>\<open>revenue[categoryIndex]\<close> yields past the end of the array.
\<close>

record 'id IDatapoint =
  country :: string
  value_num :: "real option"
  selectionId :: 'id

text \<open>What \<^verbatim>\<open>attr\<close> and \<^verbatim>\<open>style\<close> store: a number or a string (\<open>NaN\<close> for a number that is not one).\<close>

datatype sval = Num real | Str string | NaN

text \<open>
  Where a node hangs: below the visual's own \<^verbatim>\<open>svg\<close> element, elsewhere in the document,
  or nowhere (detached). \<^verbatim>\<open>selectAll(".bar")\<close> of the d3 module searches the whole
  document, \<^verbatim>\<open>this.visualSVG.selectAll("*")\<close> only below the \<^verbatim>\<open>svg\<close>.
\<close>

datatype place = InSvg | Elsewhere | Detached

record 'id node =
  tag :: string
  classes :: "string list"
  datum :: "'id IDatapoint option"
  attrs :: "string \<rightharpoonup> sval"
  style :: "string \<rightharpoonup> sval"
  place :: place

type_synonym 'id document = "'id node list"

type_synonym selection = "nat list"

datatype error = TypeError

subsection \<open>The d3 operations the visual uses\<close>

text \<open>
  \<^verbatim>\<open>selectAll(".bar")\<close>: every element of class \<^verbatim>\<open>bar\<close> that is in the document. The
  selection lists them in the order of the store, not in document order. It stands for
  the lookup of line 157 only, which restyles the selection as a whole and so does not
  observe the order; the selection that line 113 passes to the synchronizer is the
  argument \<^verbatim>\<open>barSelection\<close>, any list of nodes in any order.
\<close>

definition in_document_bar :: "'id node \<Rightarrow> bool" where
  "in_document_bar n = (place n \<noteq> Detached \<and> ''bar'' \<in> set (classes n))"

definition selectAll_bar :: "'id document \<Rightarrow> selection" where
  "selectAll_bar d = filter (\<lambda>i. in_document_bar (d ! i)) [0..<length d]"

text \<open>
  \<^verbatim>\<open>select(node).style(k, v)\<close>: one style property of one node. A reference outside the
  store denotes no node and is skipped, as d3 skips an empty slot of a selection.
\<close>

definition set_style :: "string \<Rightarrow> sval \<Rightarrow> nat \<Rightarrow> 'id document \<Rightarrow> 'id document" where
  "set_style k v i d =
     (if i < length d then d[i := (d ! i)\<lparr>style := (style (d ! i))(k \<mapsto> v)\<rparr>] else d)"

text \<open>\<^verbatim>\<open>selection.style(k, v)\<close>: the same property on every node of the selection.\<close>

definition selection_style :: "string \<Rightarrow> sval \<Rightarrow> selection \<Rightarrow> 'id document \<Rightarrow> 'id document" where
  "selection_style k v sel d = fold (set_style k v) sel d"

section \<open>The selection synchronizer\<close>

text \<open>
  Lines 162 to 166, the body of the callback:
  \<^verbatim>\<open>const isSelected = selectionIds.some((c) => c.includes(selectionId));\<close>
  \<^verbatim>\<open>const opacity = isSelected ? 1 : 0.5;\<close>
\<close>

definition isSelected :: "('id \<Rightarrow> 'id \<Rightarrow> bool) \<Rightarrow> 'id list \<Rightarrow> 'id \<Rightarrow> bool" where
  "isSelected incl selectionIds sid = list_ex (\<lambda>currentSelectionId. incl currentSelectionId sid) selectionIds"

definition opacity :: "('id \<Rightarrow> 'id \<Rightarrow> bool) \<Rightarrow> 'id list \<Rightarrow> 'id \<Rightarrow> real" where
  "opacity incl selectionIds sid = (if isSelected incl selectionIds sid then 1 else 1 / 2)"

text \<open>
  \<^verbatim>\<open>barSelection.each((datapoint, i, e) => ...)\<close>, lines 161 to 169. The callback reads
  \<^verbatim>\<open>datapoint.selectionId\<close>: on a node with no bound datum that is a \<^verbatim>\<open>TypeError\<close>, which
  ends the loop with the nodes before it already restyled. The result is the error
  thrown, if any, and the document as the call leaves it.
\<close>

fun each_bar ::
  "('id \<Rightarrow> 'id \<Rightarrow> bool) \<Rightarrow> 'id list \<Rightarrow> selection \<Rightarrow> 'id document \<Rightarrow> error option \<times> 'id document"
where
  "each_bar incl selectionIds [] d = (None, d)"
| "each_bar incl selectionIds (i # rest) d =
     (if i < length d then
        (case datum (d ! i) of
           None \<Rightarrow> (Some TypeError, d)
         | Some datapoint \<Rightarrow>
             each_bar incl selectionIds rest
               (set_style ''opacity'' (Num (opacity incl selectionIds (selectionId datapoint))) i d))
      else each_bar incl selectionIds rest d)"

text \<open>
  \<^verbatim>\<open>syncSelectionState(barSelection, selectionIds)\<close>, lines 151 to 170. An absent argument
  (\<^verbatim>\<open>undefined\<close>) is \<open>None\<close>. The empty branch does not use \<^verbatim>\<open>barSelection\<close>: it looks
  the bars up in the document.
\<close>

definition syncSelectionState ::
  "('id \<Rightarrow> 'id \<Rightarrow> bool) \<Rightarrow> selection option \<Rightarrow> 'id list option \<Rightarrow> 'id document
     \<Rightarrow> error option \<times> 'id document"
where
  "syncSelectionState incl barSelection selectionIds d =
     (if barSelection = None \<or> selectionIds = None then (None, d)
      else if length (the selectionIds) = 0
        then (None, selection_style ''opacity'' (Num 1) (selectAll_bar d) d)
      else each_bar incl (the selectionIds) (the barSelection) d)"

text \<open>
  The nodes a completed call writes to: the bars found in the document when the selection
  set is empty (line 157), the nodes of \<^verbatim>\<open>barSelection\<close> otherwise (line 161).
\<close>

definition updates :: "selection \<Rightarrow> 'id list \<Rightarrow> 'id document \<Rightarrow> nat \<Rightarrow> bool" where
  "updates M S d i = (i < length d \<and> (if S = [] then in_document_bar (d ! i) else i \<in> set M))"

text \<open>
  A mark is a node with a bound \<^verbatim>\<open>IDatapoint\<close>: it has a category label, a value and
  a selection identifier. A mark collection is a selection of marks. A rendered mark
  is a bar that is in the document: \<open>rendered d M\<close> says that the selection \<open>M\<close> holds
  such bars only, as does the selection \<^verbatim>\<open>selectAll(".bar")\<close> that line 113 passes.
\<close>

definition is_mark :: "'id document \<Rightarrow> nat \<Rightarrow> bool" where
  "is_mark d i = (i < length d \<and> datum (d ! i) \<noteq> None)"

definition mark_collection :: "'id document \<Rightarrow> selection \<Rightarrow> bool" where
  "mark_collection d M = list_all (is_mark d) M"

definition rendered :: "'id document \<Rightarrow> selection \<Rightarrow> bool" where
  "rendered d M = list_all (\<lambda>i. i < length d \<and> in_document_bar (d ! i)) M"

text \<open>The node the callback leaves behind: the same node with its opacity style set.\<close>

definition restyled :: "('id \<Rightarrow> 'id \<Rightarrow> bool) \<Rightarrow> 'id list \<Rightarrow> 'id node \<Rightarrow> 'id IDatapoint \<Rightarrow> 'id node" where
  "restyled incl S n dp = n\<lparr>style := (style n)(''opacity'' \<mapsto> Num (opacity incl S (selectionId dp)))\<rparr>"

section \<open>The redraw\<close>

text \<open>
  \<^verbatim>\<open>update(options)\<close>, lines 70 to 126. Of \<^verbatim>\<open>options\<close> the method reads the viewport and
  \<^verbatim>\<open>dataViews[0].categorical\<close>; \<^verbatim>\<open>categorical\<close>, \<^verbatim>\<open>categories\<close> and \<^verbatim>\<open>values\<close> are optional
  in the host's interface, and reading through an absent one is a \<^verbatim>\<open>TypeError\<close>. A
  category column and a value column are modelled by their \<^verbatim>\<open>values\<close> arrays; the field
  \<^verbatim>\<open>categorical.values\<close> is \<open>values_cols\<close> here.
\<close>

record DataViewCategorical =
  categories :: "string list list option"
  values_cols :: "real list list option"

record DataView =
  categorical :: "DataViewCategorical option"

record VisualUpdateOptions =
  viewport_width :: real
  viewport_height :: real
  dataViews :: "DataView list"

text \<open>
  The formatting settings of line 71 come from the host's service; of them the method
  uses the switch \<^verbatim>\<open>showBars\<close>, a parameter here.
  Lines 82 to 86 build two scales with d3, which is not part of the repository: the
  scales are a parameter, a function of what the code passes to d3. A scale answers
  with a number, with \<^verbatim>\<open>NaN\<close> or with \<^verbatim>\<open>undefined\<close> (d3's answer to an input that is
  not a number, such as \<^verbatim>\<open>yScale(undefined)\<close>).
\<close>

datatype jsnum = Finite real | NotANumber | Undefined

record scales =
  xScale :: "string \<Rightarrow> jsnum"
  yScale :: "real option \<Rightarrow> jsnum"
  barWidth :: real

text \<open>
  \<^verbatim>\<open>selection.attr(k, v)\<close> on the attributes of a node: d3 removes the attribute when the
  value is \<^verbatim>\<open>undefined\<close> and sets it otherwise.
\<close>

definition attr_value :: "jsnum \<Rightarrow> sval option" where
  "attr_value v = (case v of Finite r \<Rightarrow> Some (Num r) | NotANumber \<Rightarrow> Some NaN | Undefined \<Rightarrow> None)"

definition attr :: "string \<Rightarrow> jsnum \<Rightarrow> (string \<rightharpoonup> sval) \<Rightarrow> (string \<rightharpoonup> sval)" where
  "attr k v m = m(k := attr_value v)"

text \<open>
  \<^verbatim>\<open>visualHeight - height\<close>, line 109. Subtracting \<^verbatim>\<open>undefined\<close> or \<^verbatim>\<open>NaN\<close> gives \<^verbatim>\<open>NaN\<close>.
  Between two numbers it is the subtraction of doubles, which the model does not have:
  it is a parameter \<open>dsub\<close> that gives the value stored in the attribute.
\<close>

definition minus_height :: "(real \<Rightarrow> real \<Rightarrow> sval) \<Rightarrow> real \<Rightarrow> jsnum \<Rightarrow> sval" where
  "minus_height dsub visualHeight height =
     (case height of Finite h \<Rightarrow> dsub visualHeight h | NotANumber \<Rightarrow> NaN | Undefined \<Rightarrow> NaN)"

text \<open>\<^verbatim>\<open>this.visualSVG.selectAll("*").remove()\<close>, line 73: every node below the svg is detached.\<close>

definition remove_all :: "'id document \<Rightarrow> 'id document" where
  "remove_all d = map (\<lambda>n. if place n = InSvg then n\<lparr>place := Detached\<rparr> else n) d"

text \<open>Lines 78 to 80: the two columns, or the \<^verbatim>\<open>TypeError\<close> of reading through \<^verbatim>\<open>undefined\<close>.\<close>

definition categorical_columns :: "VisualUpdateOptions \<Rightarrow> error + (string list \<times> real list)" where
  "categorical_columns options =
     (case dataViews options of
        [] \<Rightarrow> Inl TypeError
      | dv # _ \<Rightarrow>
          (case categorical dv of
             None \<Rightarrow> Inl TypeError
           | Some cat \<Rightarrow>
               (case categories cat of
                  None \<Rightarrow> Inl TypeError
                | Some [] \<Rightarrow> Inl TypeError
                | Some (countries # _) \<Rightarrow>
                    (case values_cols cat of
                       None \<Rightarrow> Inl TypeError
                     | Some [] \<Rightarrow> Inl TypeError
                     | Some (revenue # _) \<Rightarrow> Inr (countries, revenue)))))"

text \<open>
  Lines 89 to 110, one bar: a \<^verbatim>\<open>rect\<close> of class \<^verbatim>\<open>bar\<close> with the datapoint bound, the
  six attributes set in the order of the source (one that is given \<^verbatim>\<open>undefined\<close> is not
  set) and the one style \<^verbatim>\<open>display\<close>. The selection identifier comes from the host's
  builder, a parameter \<open>mkId\<close> of the category index; the variable \<^verbatim>\<open>country\<close> is
  \<open>cname\<close>. The listeners (click, tooltip,
  context menu) are registered on the node and change none of its fields.
\<close>

definition new_bar ::
  "(nat \<Rightarrow> 'id) \<Rightarrow> scales \<Rightarrow> (real \<Rightarrow> real \<Rightarrow> sval) \<Rightarrow> real \<Rightarrow> bool \<Rightarrow> real list
     \<Rightarrow> string \<Rightarrow> nat \<Rightarrow> 'id node"
where
  "new_bar mkId sc dsub visualHeight showBars revenue cname categoryIndex =
     (let revenueValue =
            (if categoryIndex < length revenue then Some (revenue ! categoryIndex) else None);
          x = xScale sc cname;
          height = yScale sc revenueValue;
          datapoint = \<lparr>country = cname, value_num = revenueValue,
                       selectionId = mkId categoryIndex\<rparr>;
          a1 = attr ''width'' (Finite (barWidth sc)) Map.empty;
          a2 = attr ''height'' height a1;
          a3 = a2(''fill'' \<mapsto> Str ''red'');
          a4 = a3(''stroke'' \<mapsto> Str ''black'');
          a5 = attr ''x'' x a4;
          a6 = a5(''y'' \<mapsto> minus_height dsub visualHeight height)
      in \<lparr>tag = ''rect'', classes = [''bar''], datum = Some datapoint,
          attrs = a6,
          style = [''display'' \<mapsto> Str (if showBars then ''block'' else ''none'')],
          place = InSvg\<rparr>)"

text \<open>\<^verbatim>\<open>countries.forEach((country, categoryIndex) => ...)\<close>: each new bar is appended below the svg.\<close>

fun forEach_country ::
  "(string \<Rightarrow> nat \<Rightarrow> 'id node) \<Rightarrow> string list \<Rightarrow> nat \<Rightarrow> 'id document \<Rightarrow> 'id document"
where
  "forEach_country f [] categoryIndex d = d"
| "forEach_country f (cname # rest) categoryIndex d =
     forEach_country f rest (Suc categoryIndex) (d @ [f cname categoryIndex])"

definition update ::
  "(nat \<Rightarrow> 'id) \<Rightarrow> (string list \<Rightarrow> real list \<Rightarrow> real \<Rightarrow> real \<Rightarrow> scales)
     \<Rightarrow> (real \<Rightarrow> real \<Rightarrow> sval) \<Rightarrow> bool
     \<Rightarrow> VisualUpdateOptions \<Rightarrow> 'id document \<Rightarrow> error option \<times> 'id document"
where
  "update mkId d3scales dsub showBars options d =
     (let d1 = remove_all d;
          visualWidth = viewport_width options;
          visualHeight = viewport_height options
      in case categorical_columns options of
           Inl e \<Rightarrow> (Some e, d1)
         | Inr (countries, revenue) \<Rightarrow>
             (None,
              forEach_country
                (new_bar mkId (d3scales countries revenue visualWidth visualHeight) dsub
                   visualHeight showBars revenue)
                countries 0 d1))"

section \<open>A concrete document\<close>

text \<open>
  Identifiers made of keys, one containing another when it has all its keys; three bars
  \<open>A\<close>, \<open>B\<close>, \<open>C\<close> below the svg (\<open>B\<close> dimmed by an earlier click), a bar \<open>D\<close> of an
  earlier render pass, detached and still dimmed, and the svg element itself.
\<close>

definition ex_incl :: "string list \<Rightarrow> string list \<Rightarrow> bool" where
  "ex_incl a b = list_all (\<lambda>k. k \<in> set a) b"

definition ex_bar :: "string \<Rightarrow> (string \<rightharpoonup> sval) \<Rightarrow> place \<Rightarrow> string list node" where
  "ex_bar c st p =
     \<lparr>tag = ''rect'', classes = [''bar''],
      datum = Some \<lparr>country = c, value_num = Some 10, selectionId = [c]\<rparr>,
      attrs = [''fill'' \<mapsto> Str ''red''], style = st, place = p\<rparr>"

definition ex_svg :: "string list node" where
  "ex_svg = \<lparr>tag = ''svg'', classes = [''visualSVG''], datum = None,
             attrs = Map.empty, style = Map.empty, place = Elsewhere\<rparr>"

definition ex_doc :: "string list document" where
  "ex_doc =
     [ex_bar ''A'' [''display'' \<mapsto> Str ''block''] InSvg,
      ex_bar ''B'' [''display'' \<mapsto> Str ''block'', ''opacity'' \<mapsto> Num (1 / 2)] InSvg,
      ex_bar ''C'' [''display'' \<mapsto> Str ''block''] InSvg,
      ex_bar ''D'' [''display'' \<mapsto> Str ''block'', ''opacity'' \<mapsto> Num (1 / 2)] Detached,
      ex_svg]"

definition ex_scales :: "string list \<Rightarrow> real list \<Rightarrow> real \<Rightarrow> real \<Rightarrow> scales" where
  "ex_scales countries revenue w h =
     \<lparr>xScale = (\<lambda>c. Finite 0),
      yScale = (\<lambda>v. case v of None \<Rightarrow> Undefined | Some r \<Rightarrow> Finite r),
      barWidth = w\<rparr>"

definition ex_dsub :: "real \<Rightarrow> real \<Rightarrow> sval" where
  "ex_dsub a b = Num (a - b)"

definition ex_options :: VisualUpdateOptions where
  "ex_options =
     \<lparr>viewport_width = 100, viewport_height = 50,
      dataViews = [\<lparr>categorical = Some \<lparr>categories = Some [[''X'', ''Y'']],
                                        values_cols = Some [[3]]\<rparr>\<rparr>]\<rparr>"

text \<open>A second document: the bar \<open>B\<close> alone, at full opacity.\<close>

definition ex_doc2 :: "string list document" where
  "ex_doc2 = [ex_bar ''B'' [''opacity'' \<mapsto> Num 1] InSvg]"

text \<open>
  The identifiers the host builds for the two categories of \<open>ex_options\<close>, whose value
  column is one entry short: the second bar has no value.
\<close>

definition ex_mkId :: "nat \<Rightarrow> string list" where
  "ex_mkId categoryIndex = [if categoryIndex = 0 then ''X'' else ''Y'']"

section \<open>What the d3 operations and the loop do to a node\<close>

lemma length_set_style [simp]: "length (set_style k v i d) = length d"
  by (simp add: set_style_def)

lemma nth_set_style:
  "j < length d \<Longrightarrow>
   set_style k v i d ! j = (if j = i then (d ! j)\<lparr>style := (style (d ! j))(k \<mapsto> v)\<rparr> else d ! j)"
  by (simp add: set_style_def nth_list_update)

lemma length_selection_style [simp]: "length (selection_style k v sel d) = length d"
  unfolding selection_style_def by (induction sel arbitrary: d) simp_all

lemma nth_selection_style:
  "j < length d \<Longrightarrow>
   selection_style k v sel d ! j
     = (if j \<in> set sel then (d ! j)\<lparr>style := (style (d ! j))(k \<mapsto> v)\<rparr> else d ! j)"
  unfolding selection_style_def
  by (induction sel arbitrary: d) (auto simp: nth_set_style)

lemma length_each_bar [simp]: "length (snd (each_bar incl S M d)) = length d"
  by (induction M arbitrary: d) (simp_all split: option.splits)

lemma each_bar_node:
  "j < length d \<Longrightarrow>
   snd (each_bar incl S M d) ! j = d ! j
   \<or> (j \<in> set M \<and> (\<exists>dp. datum (d ! j) = Some dp \<and> snd (each_bar incl S M d) ! j = restyled incl S (d ! j) dp))"
proof (induction M arbitrary: d)
  case Nil
  then show ?case by simp
next
  case (Cons i rest)
  show ?case
  proof (cases "i < length d")
    case False
    with Cons show ?thesis by auto
  next
    case True
    show ?thesis
    proof (cases "datum (d ! i)")
      case None
      with True show ?thesis by simp
    next
      case (Some dp)
      let ?d1 = "set_style ''opacity'' (Num (opacity incl S (selectionId dp))) i d"
      have step: "each_bar incl S (i # rest) d = each_bar incl S rest ?d1"
        using True Some by simp
      have len: "j < length ?d1" using Cons.prems by simp
      have d1j: "?d1 ! j = (if j = i then restyled incl S (d ! j) dp else d ! j)"
        using Cons.prems by (simp add: nth_set_style restyled_def)
      have dat: "datum (?d1 ! j) = datum (d ! j)"
        by (simp add: d1j restyled_def)
      have twice: "restyled incl S (restyled incl S (d ! j) dp) dp = restyled incl S (d ! j) dp"
        by (simp add: restyled_def)
      show ?thesis
      proof (cases "j = i")
        case True
        with Cons.IH[OF len] Some d1j dat twice show ?thesis
          unfolding step by auto
      next
        case False
        with Cons.IH[OF len] d1j dat show ?thesis
          unfolding step by auto
      qed
    qed
  qed
qed

lemma each_bar_ok:
  "\<forall>i\<in>set M. i < length d \<longrightarrow> datum (d ! i) \<noteq> None \<Longrightarrow>
   fst (each_bar incl S M d) = None
   \<and> (\<forall>j\<in>set M. j < length d \<longrightarrow>
        (\<exists>dp. datum (d ! j) = Some dp \<and> snd (each_bar incl S M d) ! j = restyled incl S (d ! j) dp))"
proof (induction M arbitrary: d)
  case Nil
  then show ?case by simp
next
  case (Cons i rest)
  show ?case
  proof (cases "i < length d")
    case False
    with Cons show ?thesis by auto
  next
    case True
    then obtain dp where Some: "datum (d ! i) = Some dp" using Cons.prems by auto
    let ?d1 = "set_style ''opacity'' (Num (opacity incl S (selectionId dp))) i d"
    have step: "each_bar incl S (i # rest) d = each_bar incl S rest ?d1"
      using True Some by simp
    have pre: "\<forall>k\<in>set rest. k < length ?d1 \<longrightarrow> datum (?d1 ! k) \<noteq> None"
      using Cons.prems by (auto simp: nth_set_style)
    note IH = Cons.IH[OF pre]
    have d1: "\<And>k. k < length d \<Longrightarrow> ?d1 ! k = (if k = i then restyled incl S (d ! k) dp else d ! k)"
      by (simp add: nth_set_style restyled_def)
    have twice: "\<And>n. restyled incl S (restyled incl S n dp) dp = restyled incl S n dp"
      by (simp add: restyled_def)
    have dat: "\<And>n. datum (restyled incl S n dp) = datum n"
      by (simp add: restyled_def)
    have node_i: "snd (each_bar incl S rest ?d1) ! i = restyled incl S (d ! i) dp"
      using each_bar_node[of i ?d1 incl S rest] True Some d1[OF True] twice dat
      by auto
    have "fst (each_bar incl S rest ?d1) = None" using IH by blast
    moreover have "\<exists>dp'. datum (d ! j) = Some dp' \<and> snd (each_bar incl S rest ?d1) ! j = restyled incl S (d ! j) dp'"
      if j: "j \<in> set (i # rest)" "j < length d" for j
    proof (cases "j = i")
      case True
      then show ?thesis using node_i Some by simp
    next
      case False
      then have "j \<in> set rest" using j by simp
      moreover have "j < length ?d1" using j by simp
      ultimately obtain dp' where "datum (?d1 ! j) = Some dp'"
        "snd (each_bar incl S rest ?d1) ! j = restyled incl S (?d1 ! j) dp'"
        using IH by blast
      then show ?thesis using False d1[OF j(2)] by simp
    qed
    ultimately show ?thesis unfolding step by blast
  qed
qed

lemma set_selectAll_bar: "set (selectAll_bar d) = {i. i < length d \<and> in_document_bar (d ! i)}"
  by (auto simp: selectAll_bar_def)

lemma sync_empty: "syncSelectionState incl (Some M) (Some []) d
   = (None, selection_style ''opacity'' (Num 1) (selectAll_bar d) d)"
  by (simp add: syncSelectionState_def)

lemma sync_nonempty: "S \<noteq> [] \<Longrightarrow>
   syncSelectionState incl (Some M) (Some S) d = each_bar incl S M d"
  by (simp add: syncSelectionState_def)

lemma sync_empty_node:
  "i < length d \<Longrightarrow>
   snd (syncSelectionState incl (Some M) (Some []) d) ! i
     = (if in_document_bar (d ! i) then (d ! i)\<lparr>style := (style (d ! i))(''opacity'' \<mapsto> Num 1)\<rparr>
        else d ! i)"
  by (simp add: sync_empty nth_selection_style set_selectAll_bar)

lemma length_sync [simp]: "length (snd (syncSelectionState incl M S d)) = length d"
  by (simp add: syncSelectionState_def)

lemma in_document_bar_style [simp]: "in_document_bar (n\<lparr>style := s\<rparr>) = in_document_bar n"
  by (simp add: in_document_bar_def)

lemma selectAll_bar_selection_style:
  "selectAll_bar (selection_style k v sel d) = selectAll_bar d"
  unfolding selectAll_bar_def
  by (rule filter_cong) (simp_all add: nth_selection_style)

lemma selection_style_idem:
  "selection_style k v sel (selection_style k v sel d) = selection_style k v sel d"
  by (rule nth_equalityI) (simp_all add: nth_selection_style)

lemma restyled_twice [simp]: "restyled incl S (restyled incl S n dp) dp = restyled incl S n dp"
  by (simp add: restyled_def)

lemma datum_restyled [simp]: "datum (restyled incl S n dp) = datum n"
  by (simp add: restyled_def)

lemma set_style_restyled:
  "i < length d \<Longrightarrow> datum (d ! i) = Some dp \<Longrightarrow>
   set_style ''opacity'' (Num (opacity incl S (selectionId dp))) i d = d[i := restyled incl S (d ! i) dp]"
  by (simp add: set_style_def restyled_def)

lemma each_bar_idem:
  "each_bar incl S M (snd (each_bar incl S M d)) = each_bar incl S M d"
proof (induction M arbitrary: d)
  case Nil
  then show ?case by simp
next
  case (Cons i rest)
  show ?case
  proof (cases "i < length d")
    case False
    then show ?thesis using Cons.IH[of d] by simp
  next
    case True
    show ?thesis
    proof (cases "datum (d ! i)")
      case None
      with True show ?thesis by simp
    next
      case (Some dp)
      let ?d1 = "d[i := restyled incl S (d ! i) dp]"
      let ?d2 = "snd (each_bar incl S rest ?d1)"
      have step: "each_bar incl S (i # rest) d = each_bar incl S rest ?d1"
        using True Some by (simp add: set_style_restyled)
      have d1i: "?d1 ! i = restyled incl S (d ! i) dp" using True by simp
      have i1: "i < length ?d1" using True by simp
      have d2i: "?d2 ! i = restyled incl S (d ! i) dp"
        using each_bar_node[OF i1, of incl S rest] d1i Some by auto
      have i2: "i < length ?d2" using True by simp
      have dat2: "datum (?d2 ! i) = Some dp" using d2i Some by simp
      have "each_bar incl S (i # rest) ?d2 = each_bar incl S rest (?d2[i := restyled incl S (?d2 ! i) dp])"
        using i2 dat2 by (simp add: set_style_restyled)
      also have "?d2[i := restyled incl S (?d2 ! i) dp] = ?d2"
        unfolding d2i restyled_twice by (metis d2i list_update_id)
      also have "each_bar incl S rest ?d2 = each_bar incl S rest ?d1"
        by (rule Cons.IH)
      finally show ?thesis unfolding step .
    qed
  qed
qed

lemma opacity_set: "set S1 = set S2 \<Longrightarrow> opacity incl S1 x = opacity incl S2 x"
  by (simp add: opacity_def isSelected_def list_ex_iff)

lemma each_bar_set:
  assumes "set S1 = set S2"
  shows "each_bar incl S1 M d = each_bar incl S2 M d"
proof (induction M arbitrary: d)
  case Nil
  show ?case by simp
next
  case (Cons i rest)
  show ?case
  proof (cases "i < length d")
    case False
    then show ?thesis using Cons.IH by simp
  next
    case True
    show ?thesis
    proof (cases "datum (d ! i)")
      case None
      with True show ?thesis by simp
    next
      case (Some dp)
      have "opacity incl S1 (selectionId dp) = opacity incl S2 (selectionId dp)"
        by (rule opacity_set[OF assms])
      with True Some show ?thesis using Cons.IH by simp
    qed
  qed
qed

lemma each_bar_frame:
  assumes "i < length d"
  shows "\<exists>s. snd (each_bar incl S M d) ! i = (d ! i)\<lparr>style := s\<rparr>
     \<and> (\<forall>k. k \<noteq> ''opacity'' \<longrightarrow> s k = style (d ! i) k)
     \<and> (s ''opacity'' = style (d ! i) ''opacity'' \<or> s ''opacity'' = Some (Num 1) \<or> s ''opacity'' = Some (Num (1 / 2)))"
proof -
  from each_bar_node[OF assms, of incl S M]
  consider "snd (each_bar incl S M d) ! i = d ! i"
    | dp where "snd (each_bar incl S M d) ! i = restyled incl S (d ! i) dp"
    by blast
  then show ?thesis
  proof cases
    case 1
    then have "snd (each_bar incl S M d) ! i = (d ! i)\<lparr>style := style (d ! i)\<rparr>" by simp
    then show ?thesis by blast
  next
    case 2
    let ?s = "(style (d ! i))(''opacity'' \<mapsto> Num (opacity incl S (selectionId dp)))"
    have "snd (each_bar incl S M d) ! i = (d ! i)\<lparr>style := ?s\<rparr>"
      using 2 by (simp add: restyled_def)
    moreover have "\<forall>k. k \<noteq> ''opacity'' \<longrightarrow> ?s k = style (d ! i) k" by simp
    moreover have "?s ''opacity'' = Some (Num 1) \<or> ?s ''opacity'' = Some (Num (1 / 2))"
      by (simp add: opacity_def)
    ultimately show ?thesis by blast
  qed
qed

lemma sync_frame_node:
  assumes "i < length d"
  shows "\<exists>s. snd (syncSelectionState incl M S d) ! i = (d ! i)\<lparr>style := s\<rparr>
     \<and> (\<forall>k. k \<noteq> ''opacity'' \<longrightarrow> s k = style (d ! i) k)
     \<and> (s ''opacity'' = style (d ! i) ''opacity'' \<or> s ''opacity'' = Some (Num 1) \<or> s ''opacity'' = Some (Num (1 / 2)))"
proof -
  have same: "\<exists>s. d ! i = (d ! i)\<lparr>style := s\<rparr>
     \<and> (\<forall>k. k \<noteq> ''opacity'' \<longrightarrow> s k = style (d ! i) k)
     \<and> (s ''opacity'' = style (d ! i) ''opacity'' \<or> s ''opacity'' = Some (Num 1) \<or> s ''opacity'' = Some (Num (1 / 2)))"
    by (rule exI[of _ "style (d ! i)"]) simp
  have reset: "\<exists>s. selection_style ''opacity'' (Num 1) sel d ! i = (d ! i)\<lparr>style := s\<rparr>
     \<and> (\<forall>k. k \<noteq> ''opacity'' \<longrightarrow> s k = style (d ! i) k)
     \<and> (s ''opacity'' = style (d ! i) ''opacity'' \<or> s ''opacity'' = Some (Num 1) \<or> s ''opacity'' = Some (Num (1 / 2)))" for sel
  proof (cases "i \<in> set sel")
    case True
    then have "selection_style ''opacity'' (Num 1) sel d ! i
        = (d ! i)\<lparr>style := (style (d ! i))(''opacity'' \<mapsto> Num 1)\<rparr>"
      using assms by (simp add: nth_selection_style)
    then show ?thesis
      by (intro exI[of _ "(style (d ! i))(''opacity'' \<mapsto> Num 1)"]) simp
  next
    case False
    then have "selection_style ''opacity'' (Num 1) sel d ! i = d ! i"
      using assms by (simp add: nth_selection_style)
    then show ?thesis using same by simp
  qed
  show ?thesis
    unfolding syncSelectionState_def
    using same reset each_bar_frame[OF assms] by simp
qed

lemma sync_empty_updated:
  assumes "updates M [] d i"
  shows "style (snd (syncSelectionState incl (Some M) (Some []) d) ! i) ''opacity'' = Some (Num 1)"
  using assms by (simp add: updates_def sync_empty_node)

lemma sync_nonempty_updated:
  assumes "mark_collection d M" and "S \<noteq> []" and "i \<in> set M" and "datum (d ! i) = Some dp"
  shows "style (snd (syncSelectionState incl (Some M) (Some S) d) ! i) ''opacity''
     = Some (Num (opacity incl S (selectionId dp)))"
proof -
  have marks: "\<forall>i\<in>set M. i < length d \<and> datum (d ! i) \<noteq> None"
    using assms(1) by (simp add: mark_collection_def is_mark_def list_all_iff)
  then have pre: "\<forall>i\<in>set M. i < length d \<longrightarrow> datum (d ! i) \<noteq> None" by blast
  have "i < length d" using marks assms(3) by blast
  with each_bar_ok[OF pre, of incl S] assms(3,4)
  have "snd (each_bar incl S M d) ! i = restyled incl S (d ! i) dp" by auto
  then show ?thesis by (simp add: sync_nonempty[OF assms(2)] restyled_def)
qed

subsection \<open>The redraw\<close>

lemma length_remove_all [simp]: "length (remove_all d) = length d"
  by (simp add: remove_all_def)

lemma nth_remove_all:
  "i < length d \<Longrightarrow>
   remove_all d ! i = (if place (d ! i) = InSvg then (d ! i)\<lparr>place := Detached\<rparr> else d ! i)"
  by (simp add: remove_all_def)

lemma place_remove_all: "i < length d \<Longrightarrow> place (remove_all d ! i) \<noteq> InSvg"
  by (simp add: nth_remove_all)

lemma forEach_country_append:
  "forEach_country f cs k d = d @ map (\<lambda>j. f (cs ! j) (k + j)) [0..<length cs]"
proof (induction cs arbitrary: k d)
  case Nil
  show ?case by simp
next
  case (Cons c cs)
  have "map (\<lambda>j. f ((c # cs) ! j) (k + j)) [0..<length (c # cs)]
      = f c k # map (\<lambda>j. f (cs ! j) (Suc k + j)) [0..<length cs]"
    by (simp add: upt_conv_Cons map_Suc_upt[symmetric] del: upt_Suc)
  then show ?case by (simp add: Cons.IH)
qed

lemma new_bar_fields:
  "tag (new_bar mkId sc dsub h showBars revenue c k) = ''rect''"
  "classes (new_bar mkId sc dsub h showBars revenue c k) = [''bar'']"
  "datum (new_bar mkId sc dsub h showBars revenue c k)
     = Some \<lparr>country = c, value_num = (if k < length revenue then Some (revenue ! k) else None),
             selectionId = mkId k\<rparr>"
  "place (new_bar mkId sc dsub h showBars revenue c k) = InSvg"
  "style (new_bar mkId sc dsub h showBars revenue c k)
     = [''display'' \<mapsto> Str (if showBars then ''block'' else ''none'')]"
  by (simp_all add: new_bar_def Let_def)

lemma new_bar_attrs:
  "attrs (new_bar mkId sc dsub h showBars revenue c k) ''width'' = Some (Num (barWidth sc))"
  "attrs (new_bar mkId sc dsub h showBars revenue c k) ''height''
     = attr_value (yScale sc (if k < length revenue then Some (revenue ! k) else None))"
  "attrs (new_bar mkId sc dsub h showBars revenue c k) ''fill'' = Some (Str ''red'')"
  "attrs (new_bar mkId sc dsub h showBars revenue c k) ''stroke'' = Some (Str ''black'')"
  "attrs (new_bar mkId sc dsub h showBars revenue c k) ''x'' = attr_value (xScale sc c)"
  "attrs (new_bar mkId sc dsub h showBars revenue c k) ''y''
     = Some (minus_height dsub h (yScale sc (if k < length revenue then Some (revenue ! k) else None)))"
  by (simp_all add: new_bar_def Let_def attr_def attr_value_def)

lemma in_document_bar_new_bar: "in_document_bar (new_bar mkId sc dsub h showBars revenue c k)"
  by (simp add: in_document_bar_def new_bar_fields)

lemma update_error:
  "categorical_columns options = Inl e \<Longrightarrow>
   update mkId d3scales dsub showBars options d = (Some e, remove_all d)"
  by (simp add: update_def)

lemma update_ok:
  "categorical_columns options = Inr (countries, revenue) \<Longrightarrow>
   update mkId d3scales dsub showBars options d
     = (None, remove_all d @ map (\<lambda>j. new_bar mkId
           (d3scales countries revenue (viewport_width options) (viewport_height options)) dsub
           (viewport_height options) showBars revenue (countries ! j) j) [0..<length countries])"
  by (simp add: update_def Let_def forEach_country_append)

lemma update_shape:
  "\<exists>new. snd (update mkId d3scales dsub showBars options d) = remove_all d @ new
     \<and> (\<forall>n\<in>set new. place n = InSvg \<and> style n ''opacity'' = None)"
proof (cases "categorical_columns options")
  case (Inl e)
  then show ?thesis by (simp add: update_error)
next
  case (Inr p)
  then obtain countries revenue where "categorical_columns options = Inr (countries, revenue)"
    by (cases p) simp
  then show ?thesis by (auto simp: update_ok new_bar_fields)
qed

section \<open>Absent arguments\<close>

text \<open>
  Claim C3. Called with an absent mark collection or an absent selection set, the
  synchronizer returns at once: no error is raised and the document, hence every mark's
  emphasis, is what it was before the call.
\<close>

theorem sync_absent_noop:
  "syncSelectionState incl None S d = (None, d)
   \<and> syncSelectionState incl M None d = (None, d)"
  by (simp add: syncSelectionState_def)

section \<open>A selection in force\<close>

text \<open>
  Claim C1. For a collection of marks \<open>M\<close> and a non-empty selection set \<open>S\<close>, the call
  completes, and afterwards a mark of \<open>M\<close> has opacity 1 exactly when some identifier of
  \<open>S\<close> includes the mark's own identifier; a mark none includes has opacity 0.5.
\<close>

theorem sync_selected_iff:
  assumes "mark_collection d M" and "S \<noteq> []"
  shows "fst (syncSelectionState incl (Some M) (Some S) d) = None
    \<and> (\<forall>i\<in>set M. \<forall>dp. datum (d ! i) = Some dp \<longrightarrow>
         (style (snd (syncSelectionState incl (Some M) (Some S) d) ! i) ''opacity'' = Some (Num 1)
            \<longleftrightarrow> (\<exists>c\<in>set S. incl c (selectionId dp)))
         \<and> (\<not> (\<exists>c\<in>set S. incl c (selectionId dp)) \<longrightarrow>
              style (snd (syncSelectionState incl (Some M) (Some S) d) ! i) ''opacity''
                = Some (Num (1 / 2))))"
proof -
  have marks: "\<forall>i\<in>set M. i < length d \<and> datum (d ! i) \<noteq> None"
    using assms(1) by (simp add: mark_collection_def is_mark_def list_all_iff)
  then have pre: "\<forall>i\<in>set M. i < length d \<longrightarrow> datum (d ! i) \<noteq> None" by blast
  note ok = each_bar_ok[OF pre, of incl S]
  have "style (snd (each_bar incl S M d) ! i) ''opacity'' = Some (Num (opacity incl S (selectionId dp)))"
    if "i \<in> set M" "datum (d ! i) = Some dp" for i dp
    using ok that marks by (auto simp: restyled_def)
  then show ?thesis
    using ok by (simp add: sync_nonempty[OF assms(2)] opacity_def isSelected_def list_ex_iff)
qed

text \<open>The spec's scenario: marks \<open>A\<close>, \<open>B\<close>, \<open>C\<close> and the selection \<open>[A]\<close>.\<close>

theorem sync_selected_iff_witness:
  "fst (syncSelectionState ex_incl (Some [0, 1, 2]) (Some [[''A'']]) ex_doc) = None
   \<and> map (\<lambda>i. style (snd (syncSelectionState ex_incl (Some [0, 1, 2]) (Some [[''A'']]) ex_doc) ! i) ''opacity'') [0, 1, 2]
       = [Some (Num 1), Some (Num (1 / 2)), Some (Num (1 / 2))]"
proof -
  have m: "mark_collection ex_doc [0, 1, 2]"
    by (simp add: mark_collection_def is_mark_def ex_doc_def ex_bar_def)
  have s: "[[''A'']] \<noteq> []" by simp
  have dat: "datum (ex_doc ! 0) = Some \<lparr>country = ''A'', value_num = Some 10, selectionId = [''A'']\<rparr>"
     "datum (ex_doc ! 1) = Some \<lparr>country = ''B'', value_num = Some 10, selectionId = [''B'']\<rparr>"
     "datum (ex_doc ! 2) = Some \<lparr>country = ''C'', value_num = Some 10, selectionId = [''C'']\<rparr>"
    by (simp_all add: ex_doc_def ex_bar_def)
  from sync_selected_iff[OF m s, of ex_incl] dat show ?thesis
    by (simp add: ex_incl_def)
qed

section \<open>The selection cleared\<close>

text \<open>
  Claim C2. For every collection \<open>M\<close> of rendered marks and the empty selection set, the
  call completes and every mark of \<open>M\<close> has opacity 1 afterwards, whatever its opacity
  was before. The marks are rendered, that is bars in the document, as are those of
  the selection that line 113 passes: line 157 restyles the bars it finds in the document.
\<close>

theorem sync_empty_resets_marks:
  assumes "rendered d M"
  shows "fst (syncSelectionState incl (Some M) (Some []) d) = None
   \<and> (\<forall>i\<in>set M.
         style (snd (syncSelectionState incl (Some M) (Some []) d) ! i) ''opacity'' = Some (Num 1))"
proof -
  have "\<forall>i\<in>set M. i < length d \<and> in_document_bar (d ! i)"
    using assms by (simp add: rendered_def list_all_iff)
  then have "\<forall>i\<in>set M.
      style (snd (syncSelectionState incl (Some M) (Some []) d) ! i) ''opacity'' = Some (Num 1)"
    by (simp add: sync_empty_node)
  then show ?thesis by (simp add: sync_empty)
qed

text \<open>The spec's scenario with a dimmed mark: the bars \<open>A\<close> and \<open>B\<close>, of which \<open>B\<close> was dimmed.\<close>

theorem sync_empty_resets_marks_witness:
  "map (\<lambda>i. style (ex_doc ! i) ''opacity'') [0, 1] = [None, Some (Num (1 / 2))]
   \<and> fst (syncSelectionState ex_incl (Some [0, 1]) (Some []) ex_doc) = None
   \<and> map (\<lambda>i. style (snd (syncSelectionState ex_incl (Some [0, 1]) (Some []) ex_doc) ! i) ''opacity'')
        [0, 1] = [Some (Num 1), Some (Num 1)]"
proof -
  have r: "rendered ex_doc [0, 1]"
    by (simp add: rendered_def ex_doc_def ex_bar_def in_document_bar_def)
  have o: "map (\<lambda>i. style (ex_doc ! i) ''opacity'') [0, 1] = [None, Some (Num (1 / 2))]"
    by (simp add: ex_doc_def ex_bar_def)
  from sync_empty_resets_marks[OF r, of ex_incl] o show ?thesis
    by simp
qed

text \<open>
  Claim C4. With an empty selection set the result does not depend on the first argument:
  any two defined first arguments give the same outcome, and that outcome is the document
  with the opacity of every element of class \<^verbatim>\<open>bar\<close> in it set to 1 and every other node
  as it was.
\<close>

theorem sync_empty_ignores_argument:
  "syncSelectionState incl (Some M1) (Some []) d = syncSelectionState incl (Some M2) (Some []) d
   \<and> fst (syncSelectionState incl (Some M1) (Some []) d) = None
   \<and> length (snd (syncSelectionState incl (Some M1) (Some []) d)) = length d
   \<and> (\<forall>i<length d.
        snd (syncSelectionState incl (Some M1) (Some []) d) ! i
          = (if in_document_bar (d ! i)
             then (d ! i)\<lparr>style := (style (d ! i))(''opacity'' \<mapsto> Num 1)\<rparr>
             else d ! i))"
  by (simp add: sync_empty_node) (simp add: sync_empty)

text \<open>An empty first argument and one that holds no bar of the document.\<close>

theorem sync_empty_ignores_argument_witness:
  "syncSelectionState ex_incl (Some []) (Some []) ex_doc
     = syncSelectionState ex_incl (Some [3, 4]) (Some []) ex_doc
   \<and> map (\<lambda>i. style (snd (syncSelectionState ex_incl (Some []) (Some []) ex_doc) ! i) ''opacity'')
        [0, 1, 2, 3, 4]
       = [Some (Num 1), Some (Num 1), Some (Num 1), Some (Num (1 / 2)), None]"
proof -
  have l: "length ex_doc = 5" by (simp add: ex_doc_def)
  have b: "map (\<lambda>i. in_document_bar (ex_doc ! i)) [0, 1, 2, 3, 4] = [True, True, True, False, False]"
    by (simp add: ex_doc_def ex_bar_def ex_svg_def in_document_bar_def)
  have o: "style (ex_doc ! 3) ''opacity'' = Some (Num (1 / 2))" "style (ex_doc ! 4) ''opacity'' = None"
    by (simp_all add: ex_doc_def ex_bar_def ex_svg_def)
  note t = sync_empty_ignores_argument[of ex_incl "[]" ex_doc "[3, 4]"]
  have eq: "syncSelectionState ex_incl (Some []) (Some []) ex_doc
     = syncSelectionState ex_incl (Some [3, 4]) (Some []) ex_doc"
    using t by (rule conjunct1)
  have nodes: "\<forall>i<length ex_doc.
        snd (syncSelectionState ex_incl (Some []) (Some []) ex_doc) ! i
          = (if in_document_bar (ex_doc ! i)
             then (ex_doc ! i)\<lparr>style := (style (ex_doc ! i))(''opacity'' \<mapsto> Num 1)\<rparr>
             else ex_doc ! i)"
    using t by blast
  have vals: "map (\<lambda>i. style (snd (syncSelectionState ex_incl (Some []) (Some []) ex_doc) ! i) ''opacity'')
        [0, 1, 2, 3, 4]
       = [Some (Num 1), Some (Num 1), Some (Num 1), Some (Num (1 / 2)), None]"
    using nodes l b o by simp
  show ?thesis by (rule conjI[OF eq vals])
qed

section \<open>Running the synchronizer again\<close>

text \<open>
  Claim C5. Idempotence: for defined \<open>M\<close> and \<open>S\<close>, a second call with the same pair, on
  the document the first call left, ends as the first did: the same document, hence the
  same opacity on every mark, and the same outcome.
\<close>

theorem sync_idempotent:
  "syncSelectionState incl (Some M) (Some S) (snd (syncSelectionState incl (Some M) (Some S) d))
     = syncSelectionState incl (Some M) (Some S) d"
proof (cases "S = []")
  case True
  then show ?thesis
    by (simp add: sync_empty selectAll_bar_selection_style selection_style_idem)
next
  case False
  then show ?thesis by (simp add: sync_nonempty each_bar_idem)
qed

theorem sync_idempotent_witness:
  "map (\<lambda>n. style n ''opacity'') (snd (syncSelectionState ex_incl (Some [0, 1, 2]) (Some [[''A'']]) ex_doc))
     = [Some (Num 1), Some (Num (1 / 2)), Some (Num (1 / 2)), Some (Num (1 / 2)), None]
   \<and> syncSelectionState ex_incl (Some [0, 1, 2]) (Some [[''A'']])
        (snd (syncSelectionState ex_incl (Some [0, 1, 2]) (Some [[''A'']]) ex_doc))
       = syncSelectionState ex_incl (Some [0, 1, 2]) (Some [[''A'']]) ex_doc"
proof -
  have v: "map (\<lambda>n. style n ''opacity'') (snd (syncSelectionState ex_incl (Some [0, 1, 2]) (Some [[''A'']]) ex_doc))
     = [Some (Num 1), Some (Num (1 / 2)), Some (Num (1 / 2)), Some (Num (1 / 2)), None]"
    by (simp add: syncSelectionState_def ex_doc_def ex_bar_def ex_svg_def ex_incl_def
        set_style_def opacity_def isSelected_def)
  show ?thesis
    using v sync_idempotent[of ex_incl "[0, 1, 2]" "[[''A'']]" ex_doc] by (rule conjI)
qed

section \<open>What a call may change\<close>

text \<open>
  Claim C6. A call with defined inputs changes nothing but the opacity style of nodes: the
  store keeps its size, and every node keeps its bound datapoint (category label, value
  and selection identifier), its tag, classes, attributes and place in the document, and
  every style property other than \<^verbatim>\<open>opacity\<close>.
\<close>

theorem sync_touches_opacity_only:
  "length (snd (syncSelectionState incl (Some M) (Some S) d)) = length d
   \<and> (\<forall>i<length d.
        datum (snd (syncSelectionState incl (Some M) (Some S) d) ! i) = datum (d ! i)
        \<and> tag (snd (syncSelectionState incl (Some M) (Some S) d) ! i) = tag (d ! i)
        \<and> classes (snd (syncSelectionState incl (Some M) (Some S) d) ! i) = classes (d ! i)
        \<and> attrs (snd (syncSelectionState incl (Some M) (Some S) d) ! i) = attrs (d ! i)
        \<and> place (snd (syncSelectionState incl (Some M) (Some S) d) ! i) = place (d ! i)
        \<and> (\<forall>k. k \<noteq> ''opacity'' \<longrightarrow>
              style (snd (syncSelectionState incl (Some M) (Some S) d) ! i) k = style (d ! i) k))"
proof -
  have "datum (snd (syncSelectionState incl (Some M) (Some S) d) ! i) = datum (d ! i)
        \<and> tag (snd (syncSelectionState incl (Some M) (Some S) d) ! i) = tag (d ! i)
        \<and> classes (snd (syncSelectionState incl (Some M) (Some S) d) ! i) = classes (d ! i)
        \<and> attrs (snd (syncSelectionState incl (Some M) (Some S) d) ! i) = attrs (d ! i)
        \<and> place (snd (syncSelectionState incl (Some M) (Some S) d) ! i) = place (d ! i)
        \<and> (\<forall>k. k \<noteq> ''opacity'' \<longrightarrow>
              style (snd (syncSelectionState incl (Some M) (Some S) d) ! i) k = style (d ! i) k)"
    if "i < length d" for i
  proof -
    from sync_frame_node[OF that, of incl "Some M" "Some S"]
    obtain s where n: "snd (syncSelectionState incl (Some M) (Some S) d) ! i = (d ! i)\<lparr>style := s\<rparr>"
      and s: "\<forall>k. k \<noteq> ''opacity'' \<longrightarrow> s k = style (d ! i) k"
      by blast
    show ?thesis unfolding n using s by simp
  qed
  then show ?thesis by simp
qed

text \<open>Every field but the opacity, before and after a call that dims \<open>B\<close> and \<open>C\<close>.\<close>

theorem sync_touches_opacity_only_witness:
  "map (\<lambda>n. (datum n, tag n, classes n, place n, style n ''display'', attrs n ''fill''))
      (snd (syncSelectionState ex_incl (Some [0, 1, 2]) (Some [[''A'']]) ex_doc))
    = map (\<lambda>n. (datum n, tag n, classes n, place n, style n ''display'', attrs n ''fill'')) ex_doc"
proof -
  have l: "length ex_doc = 5" by (simp add: ex_doc_def)
  note t = sync_touches_opacity_only[of ex_incl "[0, 1, 2]" "[[''A'']]" ex_doc]
  show ?thesis
    by (rule nth_equalityI) (use t l in simp_all)
qed

section \<open>Emphasis as a function of the selection set and the identifier\<close>

text \<open>
  Claim C7. The opacity a call gives a mark it updates depends on the selection set and on
  the mark's own identifier only. Take two runs with the same selection set and the same
  containment test, on any two documents and mark collections, and a mark updated in each:
  if the two marks carry the same identifier they end with the same opacity, whatever
  the other marks and whatever their opacity before. A node has no field for a selected
  flag: \<open>node\<close> holds the datapoint, the attributes and the styles, and that is all.
\<close>

theorem sync_opacity_depends_on_selection_and_id:
  assumes "mark_collection d1 M1" and "mark_collection d2 M2"
    and "updates M1 S d1 i" and "updates M2 S d2 j"
    and "datum (d1 ! i) = Some dp1" and "datum (d2 ! j) = Some dp2"
    and "selectionId dp1 = selectionId dp2"
  shows "style (snd (syncSelectionState incl (Some M1) (Some S) d1) ! i) ''opacity''
       = style (snd (syncSelectionState incl (Some M2) (Some S) d2) ! j) ''opacity''"
proof (cases "S = []")
  case True
  with assms(3,4) show ?thesis by (simp add: sync_empty_updated)
next
  case False
  with assms(3,4) have i: "i \<in> set M1" and j: "j \<in> set M2" by (simp_all add: updates_def)
  have "style (snd (syncSelectionState incl (Some M1) (Some S) d1) ! i) ''opacity''
      = Some (Num (opacity incl S (selectionId dp1)))"
    by (rule sync_nonempty_updated[OF assms(1) False i assms(5)])
  moreover have "style (snd (syncSelectionState incl (Some M2) (Some S) d2) ! j) ''opacity''
      = Some (Num (opacity incl S (selectionId dp2)))"
    by (rule sync_nonempty_updated[OF assms(2) False j assms(6)])
  ultimately show ?thesis using assms(7) by simp
qed

text \<open>
  The bar \<open>B\<close>, dimmed among three bars in one document and alone at full opacity in
  another: under the selection \<open>[A]\<close> both end dimmed.
\<close>

theorem sync_opacity_depends_on_selection_and_id_witness:
  "style (ex_doc ! 1) ''opacity'' = Some (Num (1 / 2))
   \<and> style (ex_doc2 ! 0) ''opacity'' = Some (Num 1)
   \<and> map_option selectionId (datum (ex_doc ! 1)) = map_option selectionId (datum (ex_doc2 ! 0))
   \<and> style (snd (syncSelectionState ex_incl (Some [0, 1, 2]) (Some [[''A'']]) ex_doc) ! 1) ''opacity''
       = style (snd (syncSelectionState ex_incl (Some [0]) (Some [[''A'']]) ex_doc2) ! 0) ''opacity''"
proof -
  have m1: "mark_collection ex_doc [0, 1, 2]"
    by (simp add: mark_collection_def is_mark_def ex_doc_def ex_bar_def)
  have m2: "mark_collection ex_doc2 [0]"
    by (simp add: mark_collection_def is_mark_def ex_doc2_def ex_bar_def)
  have u1: "updates [0, 1, 2] [[''A'']] ex_doc 1" by (simp add: updates_def ex_doc_def)
  have u2: "updates [0] [[''A'']] ex_doc2 0" by (simp add: updates_def ex_doc2_def)
  have d1: "datum (ex_doc ! 1) = Some \<lparr>country = ''B'', value_num = Some 10, selectionId = [''B'']\<rparr>"
    by (simp add: ex_doc_def ex_bar_def)
  have d2: "datum (ex_doc2 ! 0) = Some \<lparr>country = ''B'', value_num = Some 10, selectionId = [''B'']\<rparr>"
    by (simp add: ex_doc2_def ex_bar_def)
  have o: "style (ex_doc ! 1) ''opacity'' = Some (Num (1 / 2))" "style (ex_doc2 ! 0) ''opacity'' = Some (Num 1)"
    by (simp_all add: ex_doc_def ex_doc2_def ex_bar_def)
  from sync_opacity_depends_on_selection_and_id[OF m1 m2 u1 u2 d1 d2, of ex_incl] o d1 d2
  show ?thesis by simp
qed

section \<open>The two emphasis values\<close>

text \<open>
  Claim C8. A call writes no opacity other than 1 and 0.5, on either branch: afterwards
  the opacity of a node is the one it had, or 1, or 0.5; and on a collection of marks every
  node the call updates ends with 1 or with 0.5.
\<close>

theorem sync_writes_full_or_dimmed:
  "(\<forall>i<length d.
      style (snd (syncSelectionState incl (Some M) (Some S) d) ! i) ''opacity'' = style (d ! i) ''opacity''
      \<or> style (snd (syncSelectionState incl (Some M) (Some S) d) ! i) ''opacity'' = Some (Num 1)
      \<or> style (snd (syncSelectionState incl (Some M) (Some S) d) ! i) ''opacity'' = Some (Num (1 / 2)))
   \<and> (mark_collection d M \<longrightarrow>
        (\<forall>i. updates M S d i \<longrightarrow>
           style (snd (syncSelectionState incl (Some M) (Some S) d) ! i) ''opacity'' = Some (Num 1)
           \<or> style (snd (syncSelectionState incl (Some M) (Some S) d) ! i) ''opacity'' = Some (Num (1 / 2))))"
proof (intro conjI allI impI)
  fix i assume "i < length d"
  from sync_frame_node[OF this, of incl "Some M" "Some S"]
  obtain s where n: "snd (syncSelectionState incl (Some M) (Some S) d) ! i = (d ! i)\<lparr>style := s\<rparr>"
    and s: "s ''opacity'' = style (d ! i) ''opacity'' \<or> s ''opacity'' = Some (Num 1) \<or> s ''opacity'' = Some (Num (1 / 2))"
    by blast
  show "style (snd (syncSelectionState incl (Some M) (Some S) d) ! i) ''opacity'' = style (d ! i) ''opacity''
     \<or> style (snd (syncSelectionState incl (Some M) (Some S) d) ! i) ''opacity'' = Some (Num 1)
     \<or> style (snd (syncSelectionState incl (Some M) (Some S) d) ! i) ''opacity'' = Some (Num (1 / 2))"
    unfolding n using s by simp
next
  fix i assume m: "mark_collection d M" and u: "updates M S d i"
  show "style (snd (syncSelectionState incl (Some M) (Some S) d) ! i) ''opacity'' = Some (Num 1)
     \<or> style (snd (syncSelectionState incl (Some M) (Some S) d) ! i) ''opacity'' = Some (Num (1 / 2))"
  proof (cases "S = []")
    case True
    with u show ?thesis by (simp add: sync_empty_updated)
  next
    case False
    with u have i: "i \<in> set M" by (simp add: updates_def)
    with m obtain dp where "datum (d ! i) = Some dp"
      by (auto simp: mark_collection_def is_mark_def list_all_iff)
    from sync_nonempty_updated[OF m False i this] show ?thesis
      by (simp add: opacity_def)
  qed
qed

text \<open>Under the selection \<open>[B]\<close> on the marks \<open>A\<close> and \<open>B\<close>; \<open>C\<close> is not in the collection.\<close>

theorem sync_writes_full_or_dimmed_witness:
  "map (\<lambda>n. style n ''opacity'') ex_doc = [None, Some (Num (1 / 2)), None, Some (Num (1 / 2)), None]
   \<and> map (\<lambda>i. style (snd (syncSelectionState ex_incl (Some [0, 1]) (Some [[''B'']]) ex_doc) ! i) ''opacity'')
        [0, 1, 2]
      = [Some (Num (1 / 2)), Some (Num 1), None]"
proof -
  have l: "length ex_doc = 5" by (simp add: ex_doc_def)
  have m: "mark_collection ex_doc [0, 1]"
    by (simp add: mark_collection_def is_mark_def ex_doc_def ex_bar_def)
  have u: "updates [0, 1] [[''B'']] ex_doc 0" "updates [0, 1] [[''B'']] ex_doc 1"
    by (simp_all add: updates_def ex_doc_def)
  have o: "map (\<lambda>n. style n ''opacity'') ex_doc = [None, Some (Num (1 / 2)), None, Some (Num (1 / 2)), None]"
    by (simp add: ex_doc_def ex_bar_def ex_svg_def)
  have v: "map (\<lambda>i. style (snd (syncSelectionState ex_incl (Some [0, 1]) (Some [[''B'']]) ex_doc) ! i) ''opacity'')
        [0, 1, 2]
      = [Some (Num (1 / 2)), Some (Num 1), None]"
    by (simp add: syncSelectionState_def ex_doc_def ex_bar_def ex_svg_def ex_incl_def
        set_style_def opacity_def isSelected_def)
  from sync_writes_full_or_dimmed[of ex_doc ex_incl "[0, 1]" "[[''B'']]"] m u o v show ?thesis
    by simp
qed

section \<open>The selection set as a set\<close>

text \<open>
  Claim C9. Two selection sets that hold the same identifiers, in any order and with any
  repetition, give the same outcome on every mark collection: the containment test of
  line 163 asks only whether some identifier of the set includes the mark's.
\<close>

theorem sync_selection_order_irrelevant:
  assumes "set S1 = set S2"
  shows "syncSelectionState incl (Some M) (Some S1) d = syncSelectionState incl (Some M) (Some S2) d"
proof (cases "S1 = []")
  case True
  with assms have "S2 = []" by simp
  with True show ?thesis by simp
next
  case False
  with assms have ne2: "S2 \<noteq> []" by auto
  show ?thesis
    unfolding sync_nonempty[OF False] sync_nonempty[OF ne2] by (rule each_bar_set[OF assms])
qed

theorem sync_selection_order_irrelevant_witness:
  "set [[''A''], [''C'']] = set [[''C''], [''A''], [''C'']]
   \<and> syncSelectionState ex_incl (Some [0, 1, 2]) (Some [[''A''], [''C'']]) ex_doc
       = syncSelectionState ex_incl (Some [0, 1, 2]) (Some [[''C''], [''A''], [''C'']]) ex_doc"
proof -
  have s: "set [[''A''], [''C'']] = set [[''C''], [''A''], [''C'']]" by auto
  show ?thesis
    using s sync_selection_order_irrelevant[OF s, of ex_incl "[0, 1, 2]" ex_doc] by (rule conjI)
qed

section \<open>Marks across a redraw\<close>

text \<open>
  Claim C10. A redraw removes every mark rendered before it and builds its marks anew
  with no opacity style, so no emphasis of an earlier interaction is on a mark after the
  redraw. In the model: the store only grows; every node that hung below the svg is
  detached afterwards and is no longer found by \<^verbatim>\<open>selectAll(".bar")\<close>; every node below
  the svg afterwards is a new one and has no opacity style. When the options carry the two
  columns the redraw completes and appends one node per category, in order, and each is a
  mark: a \<^verbatim>\<open>rect\<close> of class \<^verbatim>\<open>bar\<close> below the svg, found by \<^verbatim>\<open>selectAll(".bar")\<close>, bound to
  the datapoint of its category (label, value, the host's identifier for its index), with
  the attributes of lines 104 to 109 and \<^verbatim>\<open>display\<close> as its only style. When the options do
  not carry the columns, line 73 has already removed the old marks and none is built.
\<close>

theorem update_rebuilds_marks:
  "length d \<le> length (snd (update mkId d3scales dsub showBars options d))
   \<and> (\<forall>i<length d. place (d ! i) = InSvg \<longrightarrow>
         place (snd (update mkId d3scales dsub showBars options d) ! i) = Detached
         \<and> i \<notin> set (selectAll_bar (snd (update mkId d3scales dsub showBars options d))))
   \<and> (\<forall>i<length (snd (update mkId d3scales dsub showBars options d)).
         place (snd (update mkId d3scales dsub showBars options d) ! i) = InSvg \<longrightarrow>
           length d \<le> i
           \<and> style (snd (update mkId d3scales dsub showBars options d) ! i) ''opacity'' = None)
   \<and> (\<forall>countries revenue. categorical_columns options = Inr (countries, revenue) \<longrightarrow>
         fst (update mkId d3scales dsub showBars options d) = None
         \<and> length (snd (update mkId d3scales dsub showBars options d)) = length d + length countries
         \<and> (\<forall>k<length countries.
               length d + k \<in> set (selectAll_bar (snd (update mkId d3scales dsub showBars options d)))
               \<and> tag (snd (update mkId d3scales dsub showBars options d) ! (length d + k)) = ''rect''
               \<and> classes (snd (update mkId d3scales dsub showBars options d) ! (length d + k)) = [''bar'']
               \<and> place (snd (update mkId d3scales dsub showBars options d) ! (length d + k)) = InSvg
               \<and> datum (snd (update mkId d3scales dsub showBars options d) ! (length d + k))
                   = Some \<lparr>country = countries ! k,
                           value_num = (if k < length revenue then Some (revenue ! k) else None),
                           selectionId = mkId k\<rparr>
               \<and> style (snd (update mkId d3scales dsub showBars options d) ! (length d + k))
                   = [''display'' \<mapsto> Str (if showBars then ''block'' else ''none'')]
               \<and> attrs (snd (update mkId d3scales dsub showBars options d) ! (length d + k)) ''fill''
                   = Some (Str ''red'')
               \<and> attrs (snd (update mkId d3scales dsub showBars options d) ! (length d + k)) ''stroke''
                   = Some (Str ''black'')
               \<and> attrs (snd (update mkId d3scales dsub showBars options d) ! (length d + k)) ''width''
                   = Some (Num (barWidth
                       (d3scales countries revenue (viewport_width options) (viewport_height options))))
               \<and> attrs (snd (update mkId d3scales dsub showBars options d) ! (length d + k)) ''x''
                   = attr_value (xScale
                       (d3scales countries revenue (viewport_width options) (viewport_height options))
                       (countries ! k))
               \<and> attrs (snd (update mkId d3scales dsub showBars options d) ! (length d + k)) ''height''
                   = attr_value (yScale
                       (d3scales countries revenue (viewport_width options) (viewport_height options))
                       (if k < length revenue then Some (revenue ! k) else None))
               \<and> attrs (snd (update mkId d3scales dsub showBars options d) ! (length d + k)) ''y''
                   = Some (minus_height dsub (viewport_height options) (yScale
                       (d3scales countries revenue (viewport_width options) (viewport_height options))
                       (if k < length revenue then Some (revenue ! k) else None)))))"
proof -
  let ?d' = "snd (update mkId d3scales dsub showBars options d)"
  obtain new where shape: "?d' = remove_all d @ new"
    and new: "\<forall>n\<in>set new. place n = InSvg \<and> style n ''opacity'' = None"
    using update_shape by blast
  have len: "length d \<le> length ?d'"
    by (simp add: shape)
  have old: "place (?d' ! i) = Detached \<and> i \<notin> set (selectAll_bar ?d')"
    if "i < length d" "place (d ! i) = InSvg" for i
  proof -
    have "?d' ! i = (d ! i)\<lparr>place := Detached\<rparr>"
      using that by (simp add: shape nth_append nth_remove_all)
    then show ?thesis
      by (simp add: set_selectAll_bar in_document_bar_def)
  qed
  have fresh: "length d \<le> i \<and> style (?d' ! i) ''opacity'' = None"
    if "i < length ?d'" "place (?d' ! i) = InSvg" for i
  proof (cases "i < length d")
    case True
    then have "place (?d' ! i) \<noteq> InSvg"
      by (simp add: shape nth_append place_remove_all)
    with that show ?thesis by simp
  next
    case False
    then have "?d' ! i \<in> set new"
      using that(1) by (simp add: shape nth_append)
    with new False show ?thesis by simp
  qed
  have built: "fst (update mkId d3scales dsub showBars options d) = None
         \<and> length ?d' = length d + length countries
         \<and> (\<forall>k<length countries.
               length d + k \<in> set (selectAll_bar ?d')
               \<and> ?d' ! (length d + k)
                   = new_bar mkId
                       (d3scales countries revenue (viewport_width options) (viewport_height options))
                       dsub (viewport_height options) showBars revenue (countries ! k) k)"
    if "categorical_columns options = Inr (countries, revenue)" for countries revenue
    by (simp add: update_ok[OF that] nth_append set_selectAll_bar in_document_bar_new_bar)
  have marks: "fst (update mkId d3scales dsub showBars options d) = None
         \<and> length ?d' = length d + length countries
         \<and> (\<forall>k<length countries.
               length d + k \<in> set (selectAll_bar ?d')
               \<and> tag (?d' ! (length d + k)) = ''rect''
               \<and> classes (?d' ! (length d + k)) = [''bar'']
               \<and> place (?d' ! (length d + k)) = InSvg
               \<and> datum (?d' ! (length d + k))
                   = Some \<lparr>country = countries ! k,
                           value_num = (if k < length revenue then Some (revenue ! k) else None),
                           selectionId = mkId k\<rparr>
               \<and> style (?d' ! (length d + k))
                   = [''display'' \<mapsto> Str (if showBars then ''block'' else ''none'')]
               \<and> attrs (?d' ! (length d + k)) ''fill'' = Some (Str ''red'')
               \<and> attrs (?d' ! (length d + k)) ''stroke'' = Some (Str ''black'')
               \<and> attrs (?d' ! (length d + k)) ''width''
                   = Some (Num (barWidth
                       (d3scales countries revenue (viewport_width options) (viewport_height options))))
               \<and> attrs (?d' ! (length d + k)) ''x''
                   = attr_value (xScale
                       (d3scales countries revenue (viewport_width options) (viewport_height options))
                       (countries ! k))
               \<and> attrs (?d' ! (length d + k)) ''height''
                   = attr_value (yScale
                       (d3scales countries revenue (viewport_width options) (viewport_height options))
                       (if k < length revenue then Some (revenue ! k) else None))
               \<and> attrs (?d' ! (length d + k)) ''y''
                   = Some (minus_height dsub (viewport_height options) (yScale
                       (d3scales countries revenue (viewport_width options) (viewport_height options))
                       (if k < length revenue then Some (revenue ! k) else None))))"
    if c: "categorical_columns options = Inr (countries, revenue)" for countries revenue
  proof (intro conjI allI impI)
    fix k assume k: "k < length countries"
    let ?n = "new_bar mkId
                (d3scales countries revenue (viewport_width options) (viewport_height options))
                dsub (viewport_height options) showBars revenue (countries ! k) k"
    have n: "?d' ! (length d + k) = ?n" using built[OF c] k by blast
    show "length d + k \<in> set (selectAll_bar ?d')" using built[OF c] k by blast
    show "tag (?d' ! (length d + k)) = ''rect''" unfolding n by (rule new_bar_fields)
    show "classes (?d' ! (length d + k)) = [''bar'']" unfolding n by (rule new_bar_fields)
    show "place (?d' ! (length d + k)) = InSvg" unfolding n by (rule new_bar_fields)
    show "datum (?d' ! (length d + k))
            = Some \<lparr>country = countries ! k,
                    value_num = (if k < length revenue then Some (revenue ! k) else None),
                    selectionId = mkId k\<rparr>"
      unfolding n by (rule new_bar_fields)
    show "style (?d' ! (length d + k))
            = [''display'' \<mapsto> Str (if showBars then ''block'' else ''none'')]"
      unfolding n by (rule new_bar_fields)
    show "attrs (?d' ! (length d + k)) ''fill'' = Some (Str ''red'')"
      unfolding n by (rule new_bar_attrs)
    show "attrs (?d' ! (length d + k)) ''stroke'' = Some (Str ''black'')"
      unfolding n by (rule new_bar_attrs)
    show "attrs (?d' ! (length d + k)) ''width''
            = Some (Num (barWidth
                (d3scales countries revenue (viewport_width options) (viewport_height options))))"
      unfolding n by (rule new_bar_attrs)
    show "attrs (?d' ! (length d + k)) ''x''
            = attr_value (xScale
                (d3scales countries revenue (viewport_width options) (viewport_height options))
                (countries ! k))"
      unfolding n by (rule new_bar_attrs)
    show "attrs (?d' ! (length d + k)) ''height''
            = attr_value (yScale
                (d3scales countries revenue (viewport_width options) (viewport_height options))
                (if k < length revenue then Some (revenue ! k) else None))"
      unfolding n by (rule new_bar_attrs)
    show "attrs (?d' ! (length d + k)) ''y''
            = Some (minus_height dsub (viewport_height options) (yScale
                (d3scales countries revenue (viewport_width options) (viewport_height options))
                (if k < length revenue then Some (revenue ! k) else None)))"
      unfolding n by (rule new_bar_attrs)
  qed (use built[OF c] in blast)+
  show ?thesis using len old fresh marks by blast
qed

text \<open>
  A click on \<open>A\<close> dims \<open>B\<close> and \<open>C\<close>; the redraw that follows detaches the three bars and
  builds the bars \<open>X\<close> and \<open>Y\<close> with no opacity style. The value column has one entry, so
  \<open>Y\<close> has no value and no height.
\<close>

theorem update_rebuilds_marks_witness:
  "map (\<lambda>n. (place n, style n ''opacity''))
     (snd (syncSelectionState ex_incl (Some [0, 1, 2]) (Some [[''A'']]) ex_doc))
    = [(InSvg, Some (Num 1)), (InSvg, Some (Num (1 / 2))), (InSvg, Some (Num (1 / 2))),
       (Detached, Some (Num (1 / 2))), (Elsewhere, None)]
   \<and> categorical_columns ex_options = Inr ([''X'', ''Y''], [3])
   \<and> fst (update ex_mkId ex_scales ex_dsub True ex_options
          (snd (syncSelectionState ex_incl (Some [0, 1, 2]) (Some [[''A'']]) ex_doc))) = None
   \<and> map (\<lambda>n. (place n, style n ''opacity'', map_option country (datum n)))
       (snd (update ex_mkId ex_scales ex_dsub True ex_options
          (snd (syncSelectionState ex_incl (Some [0, 1, 2]) (Some [[''A'']]) ex_doc))))
    = [(Detached, Some (Num 1), Some ''A''), (Detached, Some (Num (1 / 2)), Some ''B''),
       (Detached, Some (Num (1 / 2)), Some ''C''), (Detached, Some (Num (1 / 2)), Some ''D''),
       (Elsewhere, None, None), (InSvg, None, Some ''X''), (InSvg, None, Some ''Y'')]
   \<and> map (\<lambda>n. (tag n, classes n, datum n, style n ''display'',
                 [attrs n ''width'', attrs n ''height'', attrs n ''fill'', attrs n ''stroke'',
                  attrs n ''x'', attrs n ''y'']))
       (drop 5 (snd (update ex_mkId ex_scales ex_dsub True ex_options
          (snd (syncSelectionState ex_incl (Some [0, 1, 2]) (Some [[''A'']]) ex_doc)))))
    = [(''rect'', [''bar''],
        Some \<lparr>country = ''X'', value_num = Some 3, selectionId = [''X'']\<rparr>, Some (Str ''block''),
        [Some (Num 100), Some (Num 3), Some (Str ''red''), Some (Str ''black''), Some (Num 0),
         Some (Num 47)]),
       (''rect'', [''bar''],
        Some \<lparr>country = ''Y'', value_num = None, selectionId = [''Y'']\<rparr>, Some (Str ''block''),
        [Some (Num 100), None, Some (Str ''red''), Some (Str ''black''), Some (Num 0),
         Some NaN])]
   \<and> selectAll_bar (snd (update ex_mkId ex_scales ex_dsub True ex_options
          (snd (syncSelectionState ex_incl (Some [0, 1, 2]) (Some [[''A'']]) ex_doc)))) = [5, 6]"
proof -
  let ?d = "snd (syncSelectionState ex_incl (Some [0, 1, 2]) (Some [[''A'']]) ex_doc)"
  have d: "?d = [restyled ex_incl [[''A'']] (ex_doc ! 0) \<lparr>country = ''A'', value_num = Some 10, selectionId = [''A'']\<rparr>,
                 restyled ex_incl [[''A'']] (ex_doc ! 1) \<lparr>country = ''B'', value_num = Some 10, selectionId = [''B'']\<rparr>,
                 restyled ex_incl [[''A'']] (ex_doc ! 2) \<lparr>country = ''C'', value_num = Some 10, selectionId = [''C'']\<rparr>,
                 ex_doc ! 3, ex_doc ! 4]"
    by (simp add: syncSelectionState_def ex_doc_def ex_bar_def set_style_def restyled_def)
  have s: "map (\<lambda>n. (place n, style n ''opacity'')) ?d
    = [(InSvg, Some (Num 1)), (InSvg, Some (Num (1 / 2))), (InSvg, Some (Num (1 / 2))),
       (Detached, Some (Num (1 / 2))), (Elsewhere, None)]"
    unfolding d
    by (simp add: restyled_def ex_doc_def ex_bar_def ex_svg_def ex_incl_def opacity_def isSelected_def)
  have c: "categorical_columns ex_options = Inr ([''X'', ''Y''], [3])"
    by (simp add: categorical_columns_def ex_options_def)
  note t = update_rebuilds_marks[of ?d ex_mkId ex_scales ex_dsub True ex_options]
  have e: "fst (update ex_mkId ex_scales ex_dsub True ex_options ?d) = None"
    using t c by blast
  have u: "snd (update ex_mkId ex_scales ex_dsub True ex_options ?d)
      = remove_all ?d @ [new_bar ex_mkId (ex_scales [''X'', ''Y''] [3] 100 50) ex_dsub 50 True [3] ''X'' 0,
                         new_bar ex_mkId (ex_scales [''X'', ''Y''] [3] 100 50) ex_dsub 50 True [3] ''Y'' 1]"
  proof -
    have vp: "viewport_width ex_options = 100" "viewport_height ex_options = 50"
      by (simp_all add: ex_options_def)
    show ?thesis by (simp add: update_ok[OF c] vp upt_rec)
  qed
  have r: "remove_all ?d
      = [(restyled ex_incl [[''A'']] (ex_doc ! 0) \<lparr>country = ''A'', value_num = Some 10, selectionId = [''A'']\<rparr>)\<lparr>place := Detached\<rparr>,
         (restyled ex_incl [[''A'']] (ex_doc ! 1) \<lparr>country = ''B'', value_num = Some 10, selectionId = [''B'']\<rparr>)\<lparr>place := Detached\<rparr>,
         (restyled ex_incl [[''A'']] (ex_doc ! 2) \<lparr>country = ''C'', value_num = Some 10, selectionId = [''C'']\<rparr>)\<lparr>place := Detached\<rparr>,
         ex_doc ! 3, ex_doc ! 4]"
    unfolding d
    by (simp add: remove_all_def restyled_def ex_doc_def ex_bar_def ex_svg_def)
  have old: "map (\<lambda>n. (place n, style n ''opacity'', map_option country (datum n))) (remove_all ?d)
     = [(Detached, Some (Num 1), Some ''A''), (Detached, Some (Num (1 / 2)), Some ''B''),
       (Detached, Some (Num (1 / 2)), Some ''C''), (Detached, Some (Num (1 / 2)), Some ''D''),
       (Elsewhere, None, None)]"
    unfolding r
    by (simp add: restyled_def ex_doc_def ex_bar_def ex_svg_def ex_incl_def
        opacity_def isSelected_def)
  have new: "map (\<lambda>n. (tag n, classes n, datum n, style n ''display'',
                 [attrs n ''width'', attrs n ''height'', attrs n ''fill'', attrs n ''stroke'',
                  attrs n ''x'', attrs n ''y'']))
       (drop 5 (snd (update ex_mkId ex_scales ex_dsub True ex_options ?d)))
    = [(''rect'', [''bar''],
        Some \<lparr>country = ''X'', value_num = Some 3, selectionId = [''X'']\<rparr>, Some (Str ''block''),
        [Some (Num 100), Some (Num 3), Some (Str ''red''), Some (Str ''black''), Some (Num 0),
         Some (Num 47)]),
       (''rect'', [''bar''],
        Some \<lparr>country = ''Y'', value_num = None, selectionId = [''Y'']\<rparr>, Some (Str ''block''),
        [Some (Num 100), None, Some (Str ''red''), Some (Str ''black''), Some (Num 0),
         Some NaN])]"
    unfolding u r
    by (simp add: new_bar_fields new_bar_attrs ex_scales_def ex_dsub_def ex_mkId_def
        attr_value_def minus_height_def)
  have all: "map (\<lambda>n. (place n, style n ''opacity'', map_option country (datum n)))
       (snd (update ex_mkId ex_scales ex_dsub True ex_options ?d))
    = [(Detached, Some (Num 1), Some ''A''), (Detached, Some (Num (1 / 2)), Some ''B''),
       (Detached, Some (Num (1 / 2)), Some ''C''), (Detached, Some (Num (1 / 2)), Some ''D''),
       (Elsewhere, None, None), (InSvg, None, Some ''X''), (InSvg, None, Some ''Y'')]"
    unfolding u using old by (simp add: new_bar_fields)
  have sel: "selectAll_bar (snd (update ex_mkId ex_scales ex_dsub True ex_options ?d)) = [5, 6]"
    unfolding u r
    by (simp add: selectAll_bar_def restyled_def ex_doc_def ex_bar_def ex_svg_def
        in_document_bar_def new_bar_fields upt_rec)
  show ?thesis
    using s c e all new sel by (intro conjI)
qed

end
